theory Spec2Isabelle
  imports Complex_Main "HOL-Library.AList"
begin

section \<open>Center Stage: the framing pipeline\<close>

text \<open>
  A shallow embedding of the core modules of the Center Stage camera:
  \<^verbatim>\<open>src/core/center_stage.py\<close> (crop regions and the framing engine),
  \<^verbatim>\<open>src/core/detector.py\<close> (the frame-skipping face detector) and
  \<^verbatim>\<open>src/core/tracker.py\<close> (the multi-face tracker).

  Conventions of the embedding.
  \<^item> Python's \<^verbatim>\<open>float\<close> is modelled by \<^typ>\<open>real\<close>: arithmetic is exact, there is no
    rounding, no infinity and no NaN. Python's \<^verbatim>\<open>int\<close> is \<^typ>\<open>int\<close>.
  \<^item> A method that mutates \<^verbatim>\<open>self\<close> takes the object and returns the new one.
  \<^item> An exception is a value \<open>Inl e\<close> of the result type.
  \<^item> What OpenCV answers (the cascade classifier, the per-face trackers, the
    interpolation of \<^verbatim>\<open>cv2.resize\<close>) is a parameter of the function that asks.
\<close>

datatype error = ZeroDivisionError | ValueError | Cv2Error | DetectorError

subsection \<open>Detections (detector.py)\<close>

record face_detection =
  face_x :: real
  face_y :: real
  face_width :: real
  face_height :: real
  face_confidence :: real
  face_tracking_id :: "int option"

definition area :: "face_detection \<Rightarrow> real" where
  "area f = face_width f * face_height f"

record detection_result =
  faces :: "face_detection list"
  processing_time_ms :: real

definition has_faces :: "detection_result \<Rightarrow> bool" where
  "has_faces r = (length (faces r) > 0)"

text \<open>
  \<^verbatim>\<open>max(self.faces, key=lambda f: f.area)\<close>: Python's \<^verbatim>\<open>max\<close> keeps the first of the
  maximal elements, so the candidate is replaced only by a strictly larger one.
\<close>

fun max_by_area :: "face_detection \<Rightarrow> face_detection list \<Rightarrow> face_detection" where
  "max_by_area best [] = best"
| "max_by_area best (f # fs) =
     (if area f > area best then max_by_area f fs else max_by_area best fs)"

definition primary_face :: "detection_result \<Rightarrow> face_detection option" where
  "primary_face r = (case faces r of [] \<Rightarrow> None | f # fs \<Rightarrow> Some (max_by_area f fs))"

subsection \<open>Crop regions (center\_stage.py)\<close>

text \<open>
  \<^verbatim>\<open>FramingMode\<close>. The member \<^verbatim>\<open>ALL\<close> is a reserved word of the logic's syntax, so the
  three members carry the prefix \<open>MODE\<close>.
\<close>

datatype framing_mode = MODE_SINGLE | MODE_ALL | MODE_CLOSEST

record crop_region =
  crop_x :: real
  crop_y :: real
  crop_width :: real
  crop_height :: real

definition center :: "crop_region \<Rightarrow> real \<times> real" where
  "center c = (crop_x c + crop_width c / 2, crop_y c + crop_height c / 2)"

definition full_frame :: crop_region where
  "full_frame = \<lparr>crop_x = 0, crop_y = 0, crop_width = 1, crop_height = 1\<rparr>"

definition clamp :: "crop_region \<Rightarrow> crop_region" where
  "clamp c =
     (let x = max 0 (min (crop_x c) (1 - crop_width c));
          y = max 0 (min (crop_y c) (1 - crop_height c));
          width = min (crop_width c) (1 - x);
          height = min (crop_height c) (1 - y)
      in \<lparr>crop_x = x, crop_y = y, crop_width = width, crop_height = height\<rparr>)"

definition lerp :: "crop_region \<Rightarrow> crop_region \<Rightarrow> real \<Rightarrow> crop_region" where
  "lerp c target factor =
     \<lparr>crop_x = crop_x c + (crop_x target - crop_x c) * factor,
      crop_y = crop_y c + (crop_y target - crop_y c) * factor,
      crop_width = crop_width c + (crop_width target - crop_width c) * factor,
      crop_height = crop_height c + (crop_height target - crop_height c) * factor\<rparr>"

text \<open>\<^verbatim>\<open>int(v)\<close> on a float truncates toward zero.\<close>

definition py_int :: "real \<Rightarrow> int" where
  "py_int r = (if 0 \<le> r then \<lfloor>r\<rfloor> else \<lceil>r\<rceil>)"

definition to_pixels :: "crop_region \<Rightarrow> int \<Rightarrow> int \<Rightarrow> int \<times> int \<times> int \<times> int" where
  "to_pixels c frame_width frame_height =
     (py_int (crop_x c * real_of_int frame_width),
      py_int (crop_y c * real_of_int frame_height),
      py_int (crop_width c * real_of_int frame_width),
      py_int (crop_height c * real_of_int frame_height))"

subsection \<open>The framing engine (center\_stage.py)\<close>

record center_stage_config =
  smoothing :: real
  dead_zone :: real
  min_zoom :: real
  max_zoom :: real
  face_padding :: real
  aspect_ratio :: real
  framing_mode :: framing_mode
  frames_until_reset :: int
  enabled :: bool

definition default_config :: center_stage_config where
  "default_config =
     \<lparr>smoothing = 0.08, dead_zone = 0.015, min_zoom = 1, max_zoom = 2.5,
      face_padding = 0.35, aspect_ratio = 16 / 9, framing_mode = MODE_ALL,
      frames_until_reset = 60, enabled = True\<rparr>"

record center_stage_state =
  current_crop :: crop_region
  target_crop :: crop_region
  frames_without_face :: int
  is_tracking :: bool

definition initial_state :: center_stage_state where
  "initial_state =
     \<lparr>current_crop = full_frame, target_crop = full_frame,
      frames_without_face = 0, is_tracking = False\<rparr>"

record center_stage_engine =
  config :: center_stage_config
  state :: center_stage_state

definition reset :: "center_stage_engine \<Rightarrow> center_stage_engine" where
  "reset e = e\<lparr>state := initial_state\<rparr>"

text \<open>
  \<^verbatim>\<open>min(f.x for f in faces)\<close> and \<^verbatim>\<open>max(...)\<close> over a generator: a left-to-right fold,
  and \<^verbatim>\<open>ValueError\<close> on an empty sequence.
\<close>

definition py_min :: "real list \<Rightarrow> error + real" where
  "py_min vs = (case vs of [] \<Rightarrow> Inl ValueError | v # rest \<Rightarrow> Inr (fold min rest v))"

definition py_max :: "real list \<Rightarrow> error + real" where
  "py_max vs = (case vs of [] \<Rightarrow> Inl ValueError | v # rest \<Rightarrow> Inr (fold max rest v))"

text \<open>
  The body of \<^verbatim>\<open>_calculate_target_crop\<close> from the bounding box on, for the faces that
  the framing mode selected. The divisions by \<^verbatim>\<open>target_ratio\<close>, \<^verbatim>\<open>min_zoom\<close> and
  \<^verbatim>\<open>max_zoom\<close> raise \<^verbatim>\<open>ZeroDivisionError\<close> on a zero divisor; every path divides by
  all three and nothing is mutated before, so the model tests them together.
\<close>

definition frame_faces :: "center_stage_config \<Rightarrow> face_detection list \<Rightarrow> error + crop_region" where
  "frame_faces cfg fs =
     (case (py_min (map face_x fs), py_min (map face_y fs),
            py_max (map (\<lambda>f. face_x f + face_width f) fs),
            py_max (map (\<lambda>f. face_y f + face_height f) fs)) of
        (Inr min_x0, Inr min_y0, Inr max_x0, Inr max_y0) \<Rightarrow>
          (let face_w = max_x0 - min_x0;
               face_h = max_y0 - min_y0;
               padding_x = face_w * face_padding cfg;
               padding_y = face_h * face_padding cfg;
               min_x1 = max 0 (min_x0 - padding_x);
               min_y1 = max 0 (min_y0 - padding_y);
               max_x = min 1 (max_x0 + padding_x);
               max_y = min 1 (max_y0 + padding_y);
               region_width0 = max_x - min_x1;
               region_height0 = max_y - min_y1;
               target_ratio = aspect_ratio cfg
           in if target_ratio = 0 \<or> min_zoom cfg = 0 \<or> max_zoom cfg = 0
              then Inl ZeroDivisionError
              else
                (let current_ratio =
                       (if region_height0 > 0 then region_width0 / region_height0
                        else target_ratio);
                     too_wide = (current_ratio > target_ratio);
                     min_y = (if too_wide
                              then max 0 (min_y1 - (region_width0 / target_ratio - region_height0) / 2)
                              else min_y1);
                     min_x = (if too_wide then min_x1
                              else max 0 (min_x1 - (region_height0 * target_ratio - region_width0) / 2));
                     region_width1 = (if too_wide then region_width0
                                      else region_height0 * target_ratio);
                     max_size = 1 / min_zoom cfg;
                     min_size = 1 / max_zoom cfg;
                     region_width = max min_size (min max_size region_width1);
                     region_height = region_width / target_ratio;
                     face_center_x = (min_x + max_x) / 2;
                     face_center_y = (min_y + max_y) / 2;
                     crop_x = face_center_x - region_width / 2;
                     crop_y = face_center_y - region_height / 2
                 in Inr (clamp \<lparr>crop_x = crop_x, crop_y = crop_y,
                                 crop_width = region_width, crop_height = region_height\<rparr>)))
      | _ \<Rightarrow> Inl ValueError)"

definition calculate_target_crop ::
  "center_stage_config \<Rightarrow> detection_result \<Rightarrow> error + crop_region" where
  "calculate_target_crop cfg result =
     (if framing_mode cfg = MODE_SINGLE
      then (case primary_face result of
              None \<Rightarrow> Inr full_frame
            | Some primary \<Rightarrow> frame_faces cfg [primary])
      else frame_faces cfg (faces result))"

definition smooth_transition ::
  "center_stage_config \<Rightarrow> crop_region \<Rightarrow> crop_region \<Rightarrow> crop_region" where
  "smooth_transition cfg current target =
     (let dx = \<bar>fst (center target) - fst (center current)\<bar>;
          dy = \<bar>snd (center target) - snd (center current)\<bar>;
          dw = \<bar>crop_width target - crop_width current\<bar>;
          total_delta = dx + dy + dw
      in if total_delta < dead_zone cfg then current
         else clamp (lerp current target (smoothing cfg)))"

text \<open>
  \<^verbatim>\<open>update\<close> returns the crop to apply together with the engine after the call. The
  only exception it can raise comes from \<^verbatim>\<open>_calculate_target_crop\<close>, before the first
  assignment to the state.
\<close>

definition finish_update ::
  "center_stage_engine \<Rightarrow> center_stage_state \<Rightarrow> crop_region \<times> center_stage_engine" where
  "finish_update e s =
     (let c = smooth_transition (config e) (current_crop s) (target_crop s)
      in (c, e\<lparr>state := s\<lparr>current_crop := c\<rparr>\<rparr>))"

definition update ::
  "center_stage_engine \<Rightarrow> detection_result \<Rightarrow> error + crop_region \<times> center_stage_engine" where
  "update e detection_result =
     (if \<not> enabled (config e) then Inr (full_frame, e)
      else if has_faces detection_result
      then (case calculate_target_crop (config e) detection_result of
              Inl err \<Rightarrow> Inl err
            | Inr target \<Rightarrow>
                Inr (finish_update e
                      ((state e)\<lparr>target_crop := target, frames_without_face := 0,
                                 is_tracking := True\<rparr>)))
      else
        (let s1 = (state e)\<lparr>frames_without_face := frames_without_face (state e) + 1\<rparr>;
             s2 = (if frames_without_face s1 \<ge> frames_until_reset (config e)
                   then s1\<lparr>target_crop := full_frame, is_tracking := False\<rparr>
                   else s1)
         in Inr (finish_update e s2)))"

definition set_enabled :: "center_stage_engine \<Rightarrow> bool \<Rightarrow> center_stage_engine" where
  "set_enabled e en =
     (let e1 = e\<lparr>config := (config e)\<lparr>enabled := en\<rparr>\<rparr>
      in if \<not> en then reset e1 else e1)"

definition set_zoom_range :: "center_stage_engine \<Rightarrow> real \<Rightarrow> real \<Rightarrow> center_stage_engine" where
  "set_zoom_range e mn mx =
     (let e1 = e\<lparr>config := (config e)\<lparr>min_zoom := max 1 mn\<rparr>\<rparr>
      in e1\<lparr>config := (config e1)\<lparr>max_zoom := max (min_zoom (config e1)) mx\<rparr>\<rparr>)"

text \<open>
  A caller's loop \<^verbatim>\<open>for d in ds: engine.update(d)\<close>, as the tests run it: the engine
  after the last call, or the first exception.
\<close>

fun update_cycles ::
  "center_stage_engine \<Rightarrow> detection_result list \<Rightarrow> error + center_stage_engine" where
  "update_cycles e [] = Inr e"
| "update_cycles e (d # ds) =
     (case update e d of Inl err \<Rightarrow> Inl err | Inr (c, e') \<Rightarrow> update_cycles e' ds)"

text \<open>Concrete inputs: an engine with the default configuration in the middle of tracking,
  a detection result without faces and one with a single face.\<close>

definition tracking_engine :: center_stage_engine where
  "tracking_engine =
     \<lparr>config = default_config,
      state = \<lparr>current_crop = \<lparr>crop_x = 0.25, crop_y = 0.25, crop_width = 0.5,
                               crop_height = 0.28125\<rparr>,
               target_crop = \<lparr>crop_x = 0.25, crop_y = 0.25, crop_width = 0.5,
                              crop_height = 0.28125\<rparr>,
               frames_without_face = 0, is_tracking = True\<rparr>\<rparr>"

definition no_faces :: detection_result where
  "no_faces = \<lparr>faces = [], processing_time_ms = 5\<rparr>"

definition one_face :: detection_result where
  "one_face =
     \<lparr>faces = [\<lparr>face_x = 0.4, face_y = 0.3, face_width = 0.2, face_height = 0.3,
                 face_confidence = 0.9, face_tracking_id = None\<rparr>],
      processing_time_ms = 5\<rparr>"


subsection \<open>Frames and OpenCV\<close>

text \<open>
  A frame is a \<^verbatim>\<open>numpy\<close> array: its shape \<^verbatim>\<open>(rows, cols)\<close> and its pixels by row and
  column. The channels of a pixel are inside the pixel type.
\<close>

record 'p image =
  rows :: nat
  cols :: nat
  pixel :: "nat \<Rightarrow> nat \<Rightarrow> 'p"

text \<open>
  A slice bound of Python on a sequence of \<open>n\<close> elements: a negative bound counts from
  the end, and every bound is cut to \<open>[0, n]\<close>.
\<close>

definition slice_index :: "nat \<Rightarrow> int \<Rightarrow> nat" where
  "slice_index n i = nat (if i < 0 then max 0 (int n + i) else min (int n) i)"

text \<open>\<^verbatim>\<open>xs[:m]\<close>\<close>

definition py_prefix :: "'a list \<Rightarrow> int \<Rightarrow> 'a list" where
  "py_prefix xs m = take (slice_index (length xs) m) xs"

text \<open>\<^verbatim>\<open>frame[y0:y1, x0:x1]\<close>\<close>

definition slice2 :: "'p image \<Rightarrow> int \<times> int \<Rightarrow> int \<times> int \<Rightarrow> 'p image" where
  "slice2 f ys xs =
     (let r0 = slice_index (rows f) (fst ys); r1 = slice_index (rows f) (snd ys);
          c0 = slice_index (cols f) (fst xs); c1 = slice_index (cols f) (snd xs)
      in \<lparr>rows = r1 - r0, cols = c1 - c0, pixel = (\<lambda>i j. pixel f (r0 + i) (c0 + j))\<rparr>)"

text \<open>
  A model of \<^verbatim>\<open>cv2.resize\<close>, which belongs to OpenCV and not to this repository. It
  raises \<^verbatim>\<open>cv2.error\<close> on an empty source and on an empty destination size
  \<^verbatim>\<open>(width, height)\<close>; otherwise the result has the destination size, and its pixels are
  those the interpolation \<open>interp\<close> gives, which stays a parameter.
\<close>

definition cv2_resize ::
  "('p image \<Rightarrow> int \<times> int \<Rightarrow> nat \<Rightarrow> nat \<Rightarrow> 'p) \<Rightarrow> 'p image \<Rightarrow> int \<times> int \<Rightarrow> error + 'p image" where
  "cv2_resize interp src dsize =
     (if rows src = 0 \<or> cols src = 0 \<or> fst dsize \<le> 0 \<or> snd dsize \<le> 0 then Inl Cv2Error
      else Inr \<lparr>rows = nat (snd dsize), cols = nat (fst dsize), pixel = interp src dsize\<rparr>)"

text \<open>\<^verbatim>\<open>cv2.INTER_NEAREST\<close>: every destination pixel copies the source pixel it scales to.\<close>

definition inter_nearest :: "'p image \<Rightarrow> int \<times> int \<Rightarrow> nat \<Rightarrow> nat \<Rightarrow> 'p" where
  "inter_nearest src dsize i j =
     pixel src (i * rows src div nat (snd dsize)) (j * cols src div nat (fst dsize))"

subsection \<open>The face detector (detector.py)\<close>

record face_detector =
  detector_min_confidence :: real
  max_faces :: int
  last_result :: "detection_result option"
  frame_count :: int
  detect_interval :: int

definition DETECT_WIDTH :: int where
  "DETECT_WIDTH = 320"

text \<open>\<^verbatim>\<open>FaceDetector(min_confidence, max_faces)\<close>: the object \<^verbatim>\<open>__init__\<close> builds.\<close>

definition new_detector :: "real \<Rightarrow> int \<Rightarrow> face_detector" where
  "new_detector mc mf =
     \<lparr>detector_min_confidence = mc, max_faces = mf, last_result = None,
      frame_count = 0, detect_interval = 3\<rparr>"

text \<open>
  The part of \<^verbatim>\<open>detect\<close> that runs the detector. Its parameters are the interpolation
  of \<^verbatim>\<open>cv2.resize\<close>, the cascade classifier \<open>cascade\<close> (grey conversion and
  \<^verbatim>\<open>detectMultiScale\<close> on the downscaled frame: the rectangles in discovery order, or
  the exception it raises) and the time \<open>elapsed\<close> that the two readings of
  \<^verbatim>\<open>time.perf_counter\<close> measure. \<^verbatim>\<open>DETECT_WIDTH / width\<close> raises on a frame without
  columns. Nothing is assigned to the detector before the result is cached, so an
  exception leaves the detector as it was.
\<close>

definition run_detection ::
  "('p image \<Rightarrow> int \<times> int \<Rightarrow> nat \<Rightarrow> nat \<Rightarrow> 'p) \<Rightarrow>
   ('p image \<Rightarrow> error + (int \<times> int \<times> int \<times> int) list) \<Rightarrow> real \<Rightarrow>
   face_detector \<Rightarrow> 'p image \<Rightarrow> (error + detection_result) \<times> face_detector" where
  "run_detection interp cascade elapsed s frame =
     (if cols frame = 0 then (Inl ZeroDivisionError, s)
      else
        (let scale = real_of_int DETECT_WIDTH / real (cols frame);
             small_width = DETECT_WIDTH;
             small_height = py_int (real (rows frame) * scale)
         in case cv2_resize interp frame (small_width, small_height) of
              Inl err \<Rightarrow> (Inl err, s)
            | Inr small_frame \<Rightarrow>
                (case cascade small_frame of
                   Inl err \<Rightarrow> (Inl err, s)
                 | Inr detected_faces \<Rightarrow>
                     (let fs = map (\<lambda>(i, (x, y, w, h)).
                                 \<lparr>face_x = real_of_int x / real_of_int small_width,
                                  face_y = real_of_int y / real_of_int small_height,
                                  face_width = real_of_int w / real_of_int small_width,
                                  face_height = real_of_int h / real_of_int small_height,
                                  face_confidence = 0.9,
                                  face_tracking_id = Some (int i)\<rparr>)
                               (enumerate 0 (py_prefix detected_faces (max_faces s)));
                          result = \<lparr>faces = fs, processing_time_ms = elapsed\<rparr>
                      in (Inr result, s\<lparr>last_result := Some result\<rparr>)))))"

text \<open>
  \<^verbatim>\<open>detect\<close> returns its result, or the exception, together with the detector after the
  call: the frame counter is incremented before anything can raise.
  \<^verbatim>\<open>self._frame_count % self._detect_interval\<close> raises on an interval of zero.
\<close>

definition detect ::
  "('p image \<Rightarrow> int \<times> int \<Rightarrow> nat \<Rightarrow> nat \<Rightarrow> 'p) \<Rightarrow>
   ('p image \<Rightarrow> error + (int \<times> int \<times> int \<times> int) list) \<Rightarrow> real \<Rightarrow>
   face_detector \<Rightarrow> 'p image \<Rightarrow> bool \<Rightarrow> (error + detection_result) \<times> face_detector" where
  "detect interp cascade elapsed s frame force =
     (let s1 = s\<lparr>frame_count := frame_count s + 1\<rparr>
      in case (if force then None else last_result s1) of
           Some cached \<Rightarrow>
             (if detect_interval s1 = 0 then (Inl ZeroDivisionError, s1)
              else if frame_count s1 mod detect_interval s1 \<noteq> 0 then (Inr cached, s1)
              else run_detection interp cascade elapsed s1 frame)
         | None \<Rightarrow> run_detection interp cascade elapsed s1 frame)"

subsection \<open>The frame compositor (center\_stage.py)\<close>

text \<open>
  \<^verbatim>\<open>apply_crop\<close>, with \<^verbatim>\<open>cv2.resize\<close> as the parameter \<open>resize\<close>. \<open>crop_window\<close> is the
  sub-array \<^verbatim>\<open>cropped\<close> that the method hands to it.
\<close>

definition crop_window :: "'p image \<Rightarrow> crop_region \<Rightarrow> 'p image" where
  "crop_window frame crop =
     (let h = int (rows frame); w = int (cols frame)
      in case to_pixels crop w h of
           (x0, y0, cw0, ch0) \<Rightarrow>
             (let x = max 0 (min x0 (w - cw0));
                  y = max 0 (min y0 (h - ch0));
                  cw = min cw0 (w - x);
                  ch = min ch0 (h - y)
              in slice2 frame (y, y + ch) (x, x + cw)))"

definition apply_crop ::
  "('p image \<Rightarrow> int \<times> int \<Rightarrow> error + 'p image) \<Rightarrow> center_stage_engine \<Rightarrow> 'p image \<Rightarrow>
   crop_region option \<Rightarrow> (int \<times> int) option \<Rightarrow> error + 'p image" where
  "apply_crop resize e frame crop output_size =
     (let crop1 = (case crop of None \<Rightarrow> current_crop (state e) | Some c \<Rightarrow> c);
          h = int (rows frame); w = int (cols frame);
          cropped = crop_window frame crop1;
          out = (case output_size of None \<Rightarrow> (w, h) | Some sz \<Rightarrow> sz)
      in resize cropped out)"

text \<open>
  The function \<^verbatim>\<open>apply_crop\<close> of \<^verbatim>\<open>lite.py\<close> (\<^verbatim>\<open>ultralight.py\<close> and
  \<^verbatim>\<open>test_preview.py\<close> have the same one), for the crop \<open>(cx, cy, cw, ch)\<close> of its module
  and the output size \<open>out\<close>: it resizes the whole frame when the window is empty.
\<close>

definition lite_apply_crop ::
  "('p image \<Rightarrow> int \<times> int \<Rightarrow> error + 'p image) \<Rightarrow> crop_region \<Rightarrow> int \<times> int \<Rightarrow> 'p image \<Rightarrow>
   error + 'p image" where
  "lite_apply_crop resize crop out frame =
     (let h = int (rows frame); w = int (cols frame);
          x1 = max 0 (py_int (crop_x crop * real_of_int w));
          y1 = max 0 (py_int (crop_y crop * real_of_int h));
          x2 = min w (py_int ((crop_x crop + crop_width crop) * real_of_int w));
          y2 = min h (py_int ((crop_y crop + crop_height crop) * real_of_int h))
      in if x2 > x1 \<and> y2 > y1 then resize (slice2 frame (y1, y2) (x1, x2)) out
         else resize frame out)"

text \<open>Concrete inputs: a black 640 x 480 frame, a cascade that raises, and a crop
  region without area.\<close>

definition blank_frame :: "nat image" where
  "blank_frame = \<lparr>rows = 480, cols = 640, pixel = (\<lambda>i j. 0)\<rparr>"

definition failing_cascade :: "nat image \<Rightarrow> error + (int \<times> int \<times> int \<times> int) list" where
  "failing_cascade small_frame = Inl DetectorError"



definition point_crop :: crop_region where
  "point_crop = \<lparr>crop_x = 0.5, crop_y = 0.5, crop_width = 0, crop_height = 0\<rparr>"


subsection \<open>The multi-face tracker (tracker.py)\<close>

type_synonym bbox = "int \<times> int \<times> int \<times> int"

record tracked_face =
  tracking_id :: int
  bbox :: bbox
  confidence :: real
  frames_since_detection :: int
  is_lost :: bool

text \<open>
  The tracker keeps two dictionaries under the same keys: \<^verbatim>\<open>_tracked_faces\<close> and
  \<^verbatim>\<open>_trackers\<close>, the OpenCV tracker of each face. Every method inserts and removes a
  key in both, so they list the same keys in the same order. The model keeps
  \<^verbatim>\<open>_tracked_faces\<close> as an association list in insertion order, which is the order a
  Python dictionary iterates in, and takes what the OpenCV trackers answer on a frame
  as the parameter \<open>predict\<close> of \<open>tracker_update\<close>. Creating and initialising an OpenCV
  tracker and converting the frame to BGR change none of the fields kept here and are
  left out. \<open>AList.update\<close> is the assignment
  \<^verbatim>\<open>d[k] = v\<close>: in place for a key that is present, at the end for a new one.
\<close>

record face_tracker =
  max_frames_lost :: int
  tracked_faces :: "(int \<times> tracked_face) list"
  next_id :: int

definition new_tracker :: "int \<Rightarrow> face_tracker" where
  "new_tracker max_frames_without_detection =
     \<lparr>max_frames_lost = max_frames_without_detection, tracked_faces = [], next_id = 0\<rparr>"

text \<open>\<^verbatim>\<open>list(self._tracked_faces.values())\<close>\<close>

definition face_list :: "face_tracker \<Rightarrow> tracked_face list" where
  "face_list s = map snd (tracked_faces s)"

text \<open>\<^verbatim>\<open>TrackedFace(tracking_id=tracking_id, bbox=bbox, confidence=1.0)\<close>\<close>

definition new_track :: "int \<Rightarrow> bbox \<Rightarrow> tracked_face" where
  "new_track tid b =
     \<lparr>tracking_id = tid, bbox = b, confidence = 1, frames_since_detection = 0,
      is_lost = False\<rparr>"

text \<open>The body of the loops that create tracks, in \<^verbatim>\<open>init_tracks\<close> and at the end of
  \<^verbatim>\<open>refresh_tracks\<close>: take the next identity, increment it, store the new track.\<close>

definition add_track :: "bbox \<Rightarrow> face_tracker \<Rightarrow> face_tracker" where
  "add_track b s =
     s\<lparr>tracked_faces := AList.update (next_id s) (new_track (next_id s) b) (tracked_faces s),
       next_id := next_id s + 1\<rparr>"

definition init_tracks :: "face_tracker \<Rightarrow> bbox list \<Rightarrow> tracked_face list \<times> face_tracker" where
  "init_tracks s detections =
     (let s1 = fold add_track detections (s\<lparr>tracked_faces := []\<rparr>)
      in (face_list s1, s1))"

text \<open>
  The body of the loop of \<^verbatim>\<open>update\<close> for one track, given the answer
  \<^verbatim>\<open>(success, bbox)\<close> of its OpenCV tracker: the track after the step and the
  identities the step appends to \<^verbatim>\<open>lost_ids\<close>.
\<close>

definition track_step ::
  "int \<Rightarrow> bool \<times> real \<times> real \<times> real \<times> real \<Rightarrow> int \<Rightarrow> tracked_face \<Rightarrow> tracked_face \<times> int list" where
  "track_step max_lost answer tid tracked =
     (case answer of
        (success, box_x, box_y, box_w, box_h) \<Rightarrow>
          (let t1 = tracked\<lparr>frames_since_detection := frames_since_detection tracked + 1\<rparr>;
               t2 = (if success
                     then t1\<lparr>bbox := (py_int box_x, py_int box_y, py_int box_w, py_int box_h),
                            confidence :=
                              max 0.5 (1 - real_of_int (frames_since_detection t1) * 0.02)\<rparr>
                     else t1\<lparr>is_lost := True\<rparr>);
               lost1 = (if success then [] else [tid])
           in if frames_since_detection t2 > max_lost
              then (t2\<lparr>is_lost := True\<rparr>, lost1 @ [tid])
              else (t2, lost1)))"

text \<open>The table after the loop of \<^verbatim>\<open>update\<close>, before the lost tracks are removed, and
  the list \<^verbatim>\<open>lost_ids\<close>.\<close>

definition mark_tracks ::
  "(int \<Rightarrow> bool \<times> real \<times> real \<times> real \<times> real) \<Rightarrow> face_tracker \<Rightarrow> (int \<times> tracked_face) list" where
  "mark_tracks predict s =
     map (\<lambda>(tid, tracked). (tid, fst (track_step (max_frames_lost s) (predict tid) tid tracked)))
       (tracked_faces s)"

definition lost_ids ::
  "(int \<Rightarrow> bool \<times> real \<times> real \<times> real \<times> real) \<Rightarrow> face_tracker \<Rightarrow> int list" where
  "lost_ids predict s =
     concat (map (\<lambda>(tid, tracked).
                    snd (track_step (max_frames_lost s) (predict tid) tid tracked))
               (tracked_faces s))"

text \<open>\<^verbatim>\<open>FaceTracker.update\<close>\<close>

definition tracker_update ::
  "(int \<Rightarrow> bool \<times> real \<times> real \<times> real \<times> real) \<Rightarrow> face_tracker \<Rightarrow>
   tracked_face list \<times> face_tracker" where
  "tracker_update predict s =
     (let s1 = s\<lparr>tracked_faces :=
                   filter (\<lambda>(tid, tracked). tid \<notin> set (lost_ids predict s))
                     (mark_tracks predict s)\<rparr>
      in (face_list s1, s1))"

definition calculate_iou :: "bbox \<Rightarrow> bbox \<Rightarrow> real" where
  "calculate_iou bbox1 bbox2 =
     (case bbox1 of (x1, y1, w1, h1) \<Rightarrow>
      case bbox2 of (x2, y2, w2, h2) \<Rightarrow>
        (let inter_x1 = max x1 x2;
             inter_y1 = max y1 y2;
             inter_x2 = min (x1 + w1) (x2 + w2);
             inter_y2 = min (y1 + h1) (y2 + h2)
         in if inter_x2 \<le> inter_x1 \<or> inter_y2 \<le> inter_y1 then 0
            else
              (let inter_area = (inter_x2 - inter_x1) * (inter_y2 - inter_y1);
                   area1 = w1 * h1;
                   area2 = w2 * h2;
                   union_area = area1 + area2 - inter_area
               in if union_area > 0 then real_of_int inter_area / real_of_int union_area
                  else 0)))"

text \<open>
  The inner loop of \<^verbatim>\<open>refresh_tracks\<close> for one detection: over the tracks in table
  order, skipping those already matched, with the running \<^verbatim>\<open>(best_iou, best_track_id)\<close>.
\<close>

definition best_step ::
  "int list \<Rightarrow> bbox \<Rightarrow> real \<Rightarrow> int \<times> tracked_face \<Rightarrow> real \<times> int option \<Rightarrow> real \<times> int option" where
  "best_step matched_tracks det_bbox iou_threshold entry best =
     (if fst entry \<in> set matched_tracks then best
      else
        (let iou = calculate_iou (bbox (snd entry)) det_bbox
         in if iou > fst best \<and> iou \<ge> iou_threshold then (iou, Some (fst entry)) else best))"

definition find_best_track ::
  "(int \<times> tracked_face) list \<Rightarrow> int list \<Rightarrow> bbox \<Rightarrow> real \<Rightarrow> int option" where
  "find_best_track table matched_tracks det_bbox iou_threshold =
     snd (fold (best_step matched_tracks det_bbox iou_threshold) table (0, None))"

text \<open>The three assignments to the matched track.\<close>

definition rematch :: "int \<Rightarrow> bbox \<Rightarrow> (int \<times> tracked_face) list \<Rightarrow> (int \<times> tracked_face) list" where
  "rematch tid det_bbox table =
     map (\<lambda>(k, tracked).
            if k = tid
            then (k, tracked\<lparr>bbox := det_bbox, confidence := 1, frames_since_detection := 0\<rparr>)
            else (k, tracked))
       table"

text \<open>The body of the first loop of \<^verbatim>\<open>refresh_tracks\<close>, on the table and the sets
  \<^verbatim>\<open>matched_tracks\<close> and \<^verbatim>\<open>matched_detections\<close>.\<close>

definition match_step ::
  "real \<Rightarrow> nat \<times> bbox \<Rightarrow> (int \<times> tracked_face) list \<times> int list \<times> nat list \<Rightarrow>
   (int \<times> tracked_face) list \<times> int list \<times> nat list" where
  "match_step iou_threshold det acc =
     (case acc of
        (table, matched_tracks, matched_detections) \<Rightarrow>
          (case find_best_track table matched_tracks (snd det) iou_threshold of
             None \<Rightarrow> acc
           | Some best_track_id \<Rightarrow>
               (rematch best_track_id (snd det) table,
                matched_tracks @ [best_track_id],
                matched_detections @ [fst det])))"

definition match_detections ::
  "real \<Rightarrow> (int \<times> tracked_face) list \<Rightarrow> bbox list \<Rightarrow>
   (int \<times> tracked_face) list \<times> int list \<times> nat list" where
  "match_detections iou_threshold table detections =
     fold (match_step iou_threshold) (enumerate 0 detections) (table, [], [])"

text \<open>The body of the second loop of \<^verbatim>\<open>refresh_tracks\<close>.\<close>

definition spawn_step :: "nat list \<Rightarrow> nat \<times> bbox \<Rightarrow> face_tracker \<Rightarrow> face_tracker" where
  "spawn_step matched_detections det s =
     (if fst det \<in> set matched_detections then s else add_track (snd det) s)"

definition refresh_tracks ::
  "face_tracker \<Rightarrow> bbox list \<Rightarrow> real \<Rightarrow> tracked_face list \<times> face_tracker" where
  "refresh_tracks s detections iou_threshold =
     (if detections = [] then (face_list s, s)
      else if tracked_faces s = [] then init_tracks s detections
      else
        (case match_detections iou_threshold (tracked_faces s) detections of
           (table, matched_tracks, matched_detections) \<Rightarrow>
             (let s1 = fold (spawn_step matched_detections) (enumerate 0 detections)
                         (s\<lparr>tracked_faces := table\<rparr>)
              in (face_list s1, s1))))"

definition clear :: "face_tracker \<Rightarrow> face_tracker" where
  "clear s = s\<lparr>tracked_faces := []\<rparr>"

text \<open>A caller's sequence of calls on one tracker, and the tracker after them.\<close>

datatype tracker_op =
    InitTracks "bbox list"
  | Update "int \<Rightarrow> bool \<times> real \<times> real \<times> real \<times> real"
  | RefreshTracks "bbox list" real
  | Clear

fun apply_op :: "tracker_op \<Rightarrow> face_tracker \<Rightarrow> face_tracker" where
  "apply_op (InitTracks detections) s = snd (init_tracks s detections)"
| "apply_op (Update predict) s = snd (tracker_update predict s)"
| "apply_op (RefreshTracks detections iou_threshold) s =
     snd (refresh_tracks s detections iou_threshold)"
| "apply_op Clear s = clear s"

definition run_ops :: "tracker_op list \<Rightarrow> face_tracker \<Rightarrow> face_tracker" where
  "run_ops ops s = fold apply_op ops s"

text \<open>The faces a call returns.\<close>

fun reported :: "tracker_op \<Rightarrow> face_tracker \<Rightarrow> tracked_face list" where
  "reported (InitTracks detections) s = fst (init_tracks s detections)"
| "reported (Update predict) s = fst (tracker_update predict s)"
| "reported (RefreshTracks detections iou_threshold) s =
     fst (refresh_tracks s detections iou_threshold)"
| "reported Clear s = []"

subsection \<open>The association step as the specification words it\<close>








definition exact_box :: bbox where
  "exact_box = (0, 0, 10, 10)"

definition still :: "int \<Rightarrow> bool \<times> real \<times> real \<times> real \<times> real" where
  "still tid = (True, 0, 0, 10, 10)"


subsection \<open>Invariants of the tracker\<close>

text \<open>The identities in the table, the invariant that every identity in the table is
  below \<^verbatim>\<open>_next_id\<close> and is the \<^verbatim>\<open>tracking_id\<close> of its track, and the table listing
  its identities in increasing order.\<close>

definition track_ids :: "face_tracker \<Rightarrow> int set" where
  "track_ids s = fst ` set (tracked_faces s)"

definition tracker_inv :: "face_tracker \<Rightarrow> bool" where
  "tracker_inv s \<longleftrightarrow>
     (\<forall>(k, f) \<in> set (tracked_faces s). k < next_id s \<and> tracking_id f = k)"


text \<open>A tracker with a timeout of one frame that has followed one face for one frame.\<close>

definition aged_tracker :: face_tracker where
  "aged_tracker = run_ops [InitTracks [exact_box], Update still] (new_tracker 1)"

section \<open>Properties of the framing engine\<close>

subsection \<open>Clamping a crop region\<close>



text \<open>
  Claim C9, as stated: for every crop region with arbitrary fields the clamped region has
  \<open>0 \<le> x\<close>, \<open>0 \<le> y\<close>, \<open>x + w \<le> 1\<close>, \<open>y + h \<le> 1\<close> and also \<open>w \<ge> 0\<close>, \<open>h \<ge> 0\<close>.
  The last part fails: \<^verbatim>\<open>clamp\<close> bounds the size from above only, so the region
  \<open>(0.2, 0.2, -0.5, 0.5)\<close> keeps its negative width.
\<close>

theorem clamp_negative_width_counterexample:
  "crop_width (clamp \<lparr>crop_x = 0.2, crop_y = 0.2, crop_width = - 0.5, crop_height = 0.5\<rparr>)
     = - 0.5 \<and>
   \<not> 0 \<le> crop_width
           (clamp \<lparr>crop_x = 0.2, crop_y = 0.2, crop_width = - 0.5, crop_height = 0.5\<rparr>)"
  by (simp add: clamp_def Let_def)

text \<open>
  Claim C9, amended: for every crop region \<open>r\<close> the clamped region has \<open>0 \<le> x\<close>,
  \<open>0 \<le> y\<close>, \<open>x + w \<le> 1\<close> and \<open>y + h \<le> 1\<close>; its width is non-negative exactly when
  the width of \<open>r\<close> is, and its height is non-negative exactly when the height of \<open>r\<close> is.
\<close>

theorem clamp_bounds:
  "0 \<le> crop_x (clamp r) \<and> 0 \<le> crop_y (clamp r) \<and>
   crop_x (clamp r) + crop_width (clamp r) \<le> 1 \<and>
   crop_y (clamp r) + crop_height (clamp r) \<le> 1 \<and>
   (0 \<le> crop_width (clamp r) \<longleftrightarrow> 0 \<le> crop_width r) \<and>
   (0 \<le> crop_height (clamp r) \<longleftrightarrow> 0 \<le> crop_height r)"
  by (auto simp: clamp_def Let_def min_def max_def)

subsection \<open>The target crop\<close>






text \<open>The configuration domain of the zoom limits, as \<^verbatim>\<open>set_zoom_range\<close> leaves it.\<close>

lemma set_zoom_range_limits:
  "1 \<le> min_zoom (config (set_zoom_range e mn mx)) \<and>
   min_zoom (config (set_zoom_range e mn mx)) \<le> max_zoom (config (set_zoom_range e mn mx))"
  by (simp add: set_zoom_range_def Let_def)



subsection \<open>Cycles without a face\<close>

lemma update_no_faces_step:
  assumes "enabled (config e)" "faces d = []"
  shows "\<exists>c e'. update e d = Inr (c, e') \<and> config e' = config e \<and>
     frames_without_face (state e') = frames_without_face (state e) + 1 \<and>
     (if frames_until_reset (config e) \<le> frames_without_face (state e) + 1
      then target_crop (state e') = full_frame \<and> \<not> is_tracking (state e')
      else target_crop (state e') = target_crop (state e) \<and>
           is_tracking (state e') = is_tracking (state e))"
  using assms by (simp add: update_def has_faces_def finish_update_def Let_def)

lemma update_cycles_no_faces:
  assumes "enabled (config e)" "faces d = []"
  shows "\<exists>e'. update_cycles e (replicate n d) = Inr e' \<and> config e' = config e \<and>
     frames_without_face (state e') = frames_without_face (state e) + int n \<and>
     (if 0 < n \<and> frames_until_reset (config e) \<le> frames_without_face (state e) + int n
      then target_crop (state e') = full_frame \<and> \<not> is_tracking (state e')
      else target_crop (state e') = target_crop (state e) \<and>
           is_tracking (state e') = is_tracking (state e))"
  using assms
proof (induction n arbitrary: e)
  case 0
  then show ?case by simp
next
  case (Suc n)
  obtain c e1 where s: "update e d = Inr (c, e1)" and c1: "config e1 = config e"
    and f1: "frames_without_face (state e1) = frames_without_face (state e) + 1"
    and t1: "if frames_until_reset (config e) \<le> frames_without_face (state e) + 1
      then target_crop (state e1) = full_frame \<and> \<not> is_tracking (state e1)
      else target_crop (state e1) = target_crop (state e) \<and>
           is_tracking (state e1) = is_tracking (state e)"
    using update_no_faces_step[OF Suc.prems] by blast
  have en: "enabled (config e1)" using c1 Suc.prems by simp
  obtain e' where r: "update_cycles e1 (replicate n d) = Inr e'"
    and c2: "config e' = config e1"
    and f2: "frames_without_face (state e') = frames_without_face (state e1) + int n"
    and t2: "if 0 < n \<and>
                frames_until_reset (config e1) \<le> frames_without_face (state e1) + int n
      then target_crop (state e') = full_frame \<and> \<not> is_tracking (state e')
      else target_crop (state e') = target_crop (state e1) \<and>
           is_tracking (state e') = is_tracking (state e1)"
    using Suc.IH[OF en Suc.prems(2)] by blast
  have "update_cycles e (replicate (Suc n) d) = Inr e'" using s r by simp
  moreover have "config e' = config e" using c1 c2 by simp
  moreover have
    "frames_without_face (state e') = frames_without_face (state e) + int (Suc n)"
    using f1 f2 by simp
  moreover have
    "if 0 < Suc n \<and>
        frames_until_reset (config e) \<le> frames_without_face (state e) + int (Suc n)
      then target_crop (state e') = full_frame \<and> \<not> is_tracking (state e')
      else target_crop (state e') = target_crop (state e) \<and>
           is_tracking (state e') = is_tracking (state e)"
    using t1 t2 c1 f1 by (auto split: if_splits)
  ultimately show ?case by blast
qed

text \<open>
  Claim C2, as stated: with zero faces the engine keeps the last target until the counter
  exceeds \<^verbatim>\<open>frames_until_reset\<close> (strictly more than the threshold, 61 cycles at the
  default of 60). The code compares with \<^verbatim>\<open>>=\<close>: after 60 consecutive cycles without a
  face at the default threshold the counter is 60, which does not exceed 60, and the
  target is already the full frame and \<^verbatim>\<open>is_tracking\<close> is false.
\<close>

theorem update_resets_at_threshold_counterexample:
  "\<not> isl (update_cycles tracking_engine (replicate 60 no_faces)) \<and>
   frames_without_face
     (state (projr (update_cycles tracking_engine (replicate 60 no_faces)))) = 60 \<and>
   \<not> frames_without_face
        (state (projr (update_cycles tracking_engine (replicate 60 no_faces))))
      > frames_until_reset (config tracking_engine) \<and>
   target_crop (state (projr (update_cycles tracking_engine (replicate 60 no_faces))))
     = full_frame \<and>
   target_crop (state tracking_engine) \<noteq> full_frame \<and>
   is_tracking (state tracking_engine) \<and>
   \<not> is_tracking (state (projr (update_cycles tracking_engine (replicate 60 no_faces))))"
proof -
  have en: "enabled (config tracking_engine)"
    by (simp add: tracking_engine_def default_config_def)
  have nf: "faces no_faces = []" by (simp add: no_faces_def)
  have thr: "frames_until_reset (config tracking_engine) = 60"
    by (simp add: tracking_engine_def default_config_def)
  have f0: "frames_without_face (state tracking_engine) = 0"
    by (simp add: tracking_engine_def)
  have t0: "target_crop (state tracking_engine) \<noteq> full_frame"
    by (simp add: tracking_engine_def full_frame_def)
  have tr: "is_tracking (state tracking_engine)" by (simp add: tracking_engine_def)
  from update_cycles_no_faces[OF en nf, of 60] thr f0 t0 tr show ?thesis by auto
qed

text \<open>
  Claim C2, amended: when \<^verbatim>\<open>update\<close> is called with zero faces on an enabled engine it
  increments \<^verbatim>\<open>frames_without_face\<close>; the target crop and \<^verbatim>\<open>is_tracking\<close> are retained
  while the incremented counter is below \<^verbatim>\<open>frames_until_reset\<close>, and as soon as the
  counter reaches the threshold (at the 60th consecutive cycle without a face at the
  default of 60) the target becomes the full frame and \<^verbatim>\<open>is_tracking\<close> false. The same
  holds over \<open>n\<close> consecutive cycles without a face.
\<close>

theorem update_no_faces_holds_until_threshold:
  assumes "enabled (config e)" "faces d = []"
  shows "(\<exists>c e'. update e d = Inr (c, e') \<and> config e' = config e \<and>
     frames_without_face (state e') = frames_without_face (state e) + 1 \<and>
     (if frames_until_reset (config e) \<le> frames_without_face (state e) + 1
      then target_crop (state e') = full_frame \<and> \<not> is_tracking (state e')
      else target_crop (state e') = target_crop (state e) \<and>
           is_tracking (state e') = is_tracking (state e))) \<and>
   (\<exists>e'. update_cycles e (replicate n d) = Inr e' \<and> config e' = config e \<and>
     frames_without_face (state e') = frames_without_face (state e) + int n \<and>
     (if 0 < n \<and> frames_until_reset (config e) \<le> frames_without_face (state e) + int n
      then target_crop (state e') = full_frame \<and> \<not> is_tracking (state e')
      else target_crop (state e') = target_crop (state e) \<and>
           is_tracking (state e') = is_tracking (state e)))"
  using update_no_faces_step[OF assms] update_cycles_no_faces[OF assms] by blast

theorem update_no_faces_holds_until_threshold_witness:
  "enabled (config tracking_engine) \<and> faces no_faces = [] \<and>
   (\<exists>e'. update_cycles tracking_engine (replicate 59 no_faces) = Inr e' \<and>
      frames_without_face (state e') = 59 \<and>
      target_crop (state e') = target_crop (state tracking_engine) \<and>
      is_tracking (state e'))"
proof -
  have en: "enabled (config tracking_engine)"
    by (simp add: tracking_engine_def default_config_def)
  have nf: "faces no_faces = []" by (simp add: no_faces_def)
  have thr: "frames_until_reset (config tracking_engine) = 60"
    by (simp add: tracking_engine_def default_config_def)
  have f0: "frames_without_face (state tracking_engine) = 0"
    by (simp add: tracking_engine_def)
  have t0: "is_tracking (state tracking_engine)" by (simp add: tracking_engine_def)
  from update_no_faces_holds_until_threshold[OF en nf, of 59, THEN conjunct2]
    thr f0 t0 en nf
  show ?thesis by auto
qed

subsection \<open>A disabled engine\<close>

text \<open>
  Claim C3: \<^verbatim>\<open>set_enabled(False)\<close> resets the current and the target crop to the full
  frame and \<^verbatim>\<open>is_tracking\<close> to false, whatever the engine was before, and \<^verbatim>\<open>update\<close> on
  a disabled engine (after \<^verbatim>\<open>set_enabled(False)\<close>, or any engine whose configuration has
  \<^verbatim>\<open>enabled\<close> false) returns the full-frame region in that call.
\<close>

theorem set_enabled_false_resets:
  "current_crop (state (set_enabled e False)) = full_frame \<and>
   target_crop (state (set_enabled e False)) = full_frame \<and>
   \<not> is_tracking (state (set_enabled e False)) \<and>
   \<not> enabled (config (set_enabled e False)) \<and>
   map_sum id fst (update (set_enabled e False) d) = Inr full_frame \<and>
   map_sum id fst (update (e\<lparr>config := (config e)\<lparr>enabled := False\<rparr>\<rparr>) d) = Inr full_frame"
  by (simp add: update_def set_enabled_def reset_def initial_state_def)

text \<open>
  Claim C10: on a disabled engine \<^verbatim>\<open>update\<close> returns the full-frame region and leaves
  the engine as it was: \<^verbatim>\<open>current_crop\<close>, \<^verbatim>\<open>target_crop\<close>, \<^verbatim>\<open>frames_without_face\<close> and
  \<^verbatim>\<open>is_tracking\<close> are unchanged (and so is the configuration).
\<close>

theorem update_disabled_no_mutation:
  "\<not> enabled (config e) \<Longrightarrow> update e d = Inr (full_frame, e)"
  by (simp add: update_def)

theorem update_disabled_no_mutation_witness:
  "\<not> enabled (config (tracking_engine\<lparr>config := default_config\<lparr>enabled := False\<rparr>\<rparr>)) \<and>
   update (tracking_engine\<lparr>config := default_config\<lparr>enabled := False\<rparr>\<rparr>) one_face =
     Inr (full_frame, tracking_engine\<lparr>config := default_config\<lparr>enabled := False\<rparr>\<rparr>) \<and>
   is_tracking (state (tracking_engine\<lparr>config := default_config\<lparr>enabled := False\<rparr>\<rparr>))"
proof -
  have d: "\<not> enabled (config (tracking_engine\<lparr>config := default_config\<lparr>enabled := False\<rparr>\<rparr>))"
    by simp
  have t: "is_tracking (state (tracking_engine\<lparr>config := default_config\<lparr>enabled := False\<rparr>\<rparr>))"
    by (simp add: tracking_engine_def)
  from update_disabled_no_mutation[OF d] d t show ?thesis by blast
qed

section \<open>Properties of the face detector\<close>



lemma detect_runs:
  assumes "force \<or> last_result s = None \<or>
           (detect_interval s \<noteq> 0 \<and> (frame_count s + 1) mod detect_interval s = 0)"
  shows "detect interp cascade elapsed s frame force =
         run_detection interp cascade elapsed (s\<lparr>frame_count := frame_count s + 1\<rparr>) frame"
  using assms by (cases "last_result s") (auto simp: detect_def Let_def)



lemma run_detection_raises:
  assumes c: "cols frame \<noteq> 0"
    and rs: "cv2_resize interp frame
               (DETECT_WIDTH,
                py_int (real (rows frame) * (real_of_int DETECT_WIDTH / real (cols frame))))
             = Inr small"
    and cas: "cascade small = Inl err"
  shows "run_detection interp cascade elapsed s frame = (Inl err, s)"
  using assms by (simp add: run_detection_def Let_def)

lemma blank_frame_shape: "rows blank_frame = 480" "cols blank_frame = 640"
  by (simp_all add: blank_frame_def)

lemma blank_small:
  "cv2_resize inter_nearest blank_frame
     (DETECT_WIDTH,
      py_int (real (rows blank_frame) * (real_of_int DETECT_WIDTH / real (cols blank_frame))))
   = Inr \<lparr>rows = 240, cols = 320, pixel = inter_nearest blank_frame (320, 240)\<rparr>"
  by (simp add: cv2_resize_def blank_frame_shape DETECT_WIDTH_def py_int_def)



text \<open>
  Claim C7, as stated: when the detector invocation raises, \<^verbatim>\<open>detect\<close> returns an empty
  result instead of propagating. The method has no handler: on a fresh detector whose
  cascade raises, the call raises the same exception.
\<close>

theorem detect_raises_counterexample:
  "fst (detect inter_nearest failing_cascade 7 (new_detector 0.5 5) blank_frame False)
     = Inl DetectorError \<and>
   fst (detect inter_nearest failing_cascade 7 (new_detector 0.5 5) blank_frame False)
     \<noteq> Inr \<lparr>faces = [], processing_time_ms = 7\<rparr>"
proof -
  let ?s1 = "(new_detector 0.5 5)\<lparr>frame_count := frame_count (new_detector 0.5 5) + 1\<rparr>"
  have n: "last_result (new_detector 0.5 5) = None" by (simp add: new_detector_def)
  have c: "cols blank_frame \<noteq> 0" by (simp add: blank_frame_shape)
  have f: "failing_cascade
             \<lparr>rows = 240, cols = 320, pixel = inter_nearest blank_frame (320, 240)\<rparr>
           = Inl DetectorError"
    by (simp add: failing_cascade_def)
  have "detect inter_nearest failing_cascade 7 (new_detector 0.5 5) blank_frame False
    = run_detection inter_nearest failing_cascade 7 ?s1 blank_frame"
    using n by (intro detect_runs) blast
  also have "\<dots> = (Inl DetectorError, ?s1)"
    using c blank_small f
    by (rule run_detection_raises[where
          small = "\<lparr>rows = 240, cols = 320, pixel = inter_nearest blank_frame (320, 240)\<rparr>"])
  finally show ?thesis by simp
qed

text \<open>
  Claim C7, amended: when the detector is invoked (forced, no cached result, or the
  counter a multiple of the interval) and the invocation raises, \<^verbatim>\<open>detect\<close> propagates
  that exception to its caller; the frame counter has been incremented and the cached
  result is the one from before.
\<close>

theorem detect_propagates_detector_error:
  assumes run: "force \<or> last_result s = None \<or>
           (detect_interval s \<noteq> 0 \<and> (frame_count s + 1) mod detect_interval s = 0)"
    and c: "cols frame \<noteq> 0"
    and rs: "cv2_resize interp frame
               (DETECT_WIDTH,
                py_int (real (rows frame) * (real_of_int DETECT_WIDTH / real (cols frame))))
             = Inr small"
    and cas: "cascade small = Inl err"
  shows "detect interp cascade elapsed s frame force =
           (Inl err, s\<lparr>frame_count := frame_count s + 1\<rparr>)"
proof -
  have "run_detection interp cascade elapsed (s\<lparr>frame_count := frame_count s + 1\<rparr>) frame
        = (Inl err, s\<lparr>frame_count := frame_count s + 1\<rparr>)"
    using c rs cas by (rule run_detection_raises[where small = small])
  then show ?thesis
    using detect_runs[OF run, of interp cascade elapsed frame] by simp
qed

theorem detect_propagates_detector_error_witness:
  "(False \<or> last_result (new_detector 0.5 5) = None \<or>
      (detect_interval (new_detector 0.5 5) \<noteq> 0 \<and>
       (frame_count (new_detector 0.5 5) + 1) mod detect_interval (new_detector 0.5 5) = 0)) \<and>
   cols blank_frame \<noteq> 0 \<and>
   failing_cascade \<lparr>rows = 240, cols = 320, pixel = inter_nearest blank_frame (320, 240)\<rparr>
     = Inl DetectorError \<and>
   detect inter_nearest failing_cascade 7 (new_detector 0.5 5) blank_frame False =
     (Inl DetectorError, (new_detector 0.5 5)\<lparr>frame_count := 1\<rparr>)"
proof -
  have n: "False \<or> last_result (new_detector 0.5 5) = None \<or>
      (detect_interval (new_detector 0.5 5) \<noteq> 0 \<and>
       (frame_count (new_detector 0.5 5) + 1) mod detect_interval (new_detector 0.5 5) = 0)"
    by (simp add: new_detector_def)
  have c: "cols blank_frame \<noteq> 0" by (simp add: blank_frame_shape)
  have f: "failing_cascade
             \<lparr>rows = 240, cols = 320, pixel = inter_nearest blank_frame (320, 240)\<rparr>
           = Inl DetectorError"
    by (simp add: failing_cascade_def)
  have fc: "frame_count (new_detector 0.5 5) = 0" by (simp add: new_detector_def)
  from detect_propagates_detector_error[where cascade = failing_cascade and elapsed = 7,
         OF n c blank_small f] n c f fc
  show ?thesis by simp
qed

section \<open>Properties of the frame compositor\<close>

lemma point_crop_pixels: "to_pixels point_crop 640 480 = (320, 240, 0, 0)"
  by (simp add: to_pixels_def point_crop_def py_int_def)

lemma point_crop_window:
  "crop_window blank_frame point_crop = slice2 blank_frame (240, 240) (320, 320)"
  by (simp add: crop_window_def blank_frame_shape point_crop_pixels Let_def)

text \<open>
  Claim C8: \<^verbatim>\<open>apply_crop\<close> never raises, and on a crop of zero pixel width or height it
  resizes the full frame. The method does not: on a 640 x 480 frame and a crop region
  of size zero it hands an array without rows and columns to \<^verbatim>\<open>cv2.resize\<close>, which
  raises, where the function of the same name in \<^verbatim>\<open>lite.py\<close> resizes the whole frame.
\<close>

theorem apply_crop_degenerate_raises:
  "rows (crop_window blank_frame point_crop) = 0 \<and>
   cols (crop_window blank_frame point_crop) = 0 \<and>
   apply_crop (cv2_resize interp) e blank_frame (Some point_crop) None = Inl Cv2Error \<and>
   lite_apply_crop (cv2_resize interp) point_crop (640, 480) blank_frame =
     Inr \<lparr>rows = 480, cols = 640, pixel = interp blank_frame (640, 480)\<rparr>"
proof -
  have r: "rows (crop_window blank_frame point_crop) = 0"
    by (simp add: point_crop_window slice2_def Let_def)
  have c: "cols (crop_window blank_frame point_crop) = 0"
    by (simp add: point_crop_window slice2_def Let_def)
  have a: "apply_crop (cv2_resize interp) e blank_frame (Some point_crop) None = Inl Cv2Error"
    using r by (simp add: apply_crop_def Let_def cv2_resize_def)
  have l: "lite_apply_crop (cv2_resize interp) point_crop (640, 480) blank_frame =
     Inr \<lparr>rows = 480, cols = 640, pixel = interp blank_frame (640, 480)\<rparr>"
    by (simp add: lite_apply_crop_def Let_def point_crop_def py_int_def blank_frame_shape
          cv2_resize_def)
  show ?thesis using r c a l by blast
qed

section \<open>Properties of the multi-face tracker\<close>

subsection \<open>The best track for a detection\<close>




subsection \<open>Identities\<close>

lemma update_fresh: "k \<notin> fst ` set al \<Longrightarrow> AList.update k v al = al @ [(k, v)]"
  by (induction al) auto

lemma add_track_table:
  assumes "tracker_inv s"
  shows "tracked_faces (add_track b s) = tracked_faces s @ [(next_id s, new_track (next_id s) b)]"
proof -
  have "next_id s \<notin> fst ` set (tracked_faces s)"
    using assms by (fastforce simp: tracker_inv_def)
  then show ?thesis by (simp add: add_track_def update_fresh)
qed

lemma add_track_inv:
  assumes "tracker_inv s"
  shows "tracker_inv (add_track b s)"
  unfolding tracker_inv_def add_track_table[OF assms]
  using assms by (fastforce simp: tracker_inv_def add_track_def new_track_def)

lemma add_track_next: "next_id (add_track b s) = next_id s + 1"
  "max_frames_lost (add_track b s) = max_frames_lost s"
  by (simp_all add: add_track_def)

lemma enumerate_shift:
  "map (\<lambda>(j, d). (a + 1 + int j, new_track (a + 1 + int j) (snd d))) (enumerate n xs)
   = map (\<lambda>(j, d). (a + int j, new_track (a + int j) (snd d))) (enumerate (Suc n) xs)"
  by (induction xs arbitrary: n) (simp_all add: algebra_simps)

text \<open>One creation loop, over the detections that are not skipped.\<close>

lemma spawn_fold:
  assumes "tracker_inv s"
  shows "tracker_inv (fold (spawn_step md) ds s) \<and>
         max_frames_lost (fold (spawn_step md) ds s) = max_frames_lost s \<and>
         next_id (fold (spawn_step md) ds s) =
           next_id s + int (length (filter (\<lambda>d. fst d \<notin> set md) ds)) \<and>
         tracked_faces (fold (spawn_step md) ds s) =
           tracked_faces s @
           map (\<lambda>(j, d). (next_id s + int j, new_track (next_id s + int j) (snd d)))
             (enumerate 0 (filter (\<lambda>d. fst d \<notin> set md) ds))"
  using assms
proof (induction ds arbitrary: s)
  case Nil
  then show ?case by simp
next
  case (Cons d ds)
  show ?case
  proof (cases "fst d \<in> set md")
    case True
    then have "spawn_step md d s = s" by (simp add: spawn_step_def)
    then show ?thesis using Cons.IH[OF Cons.prems] True by simp
  next
    case False
    then have st: "spawn_step md d s = add_track (snd d) s" by (simp add: spawn_step_def)
    have inv1: "tracker_inv (add_track (snd d) s)" using add_track_inv[OF Cons.prems] .
    have shift: "map (\<lambda>(j, d). (next_id s + 1 + int j, new_track (next_id s + 1 + int j) (snd d)))
             (enumerate 0 (filter (\<lambda>d. fst d \<notin> set md) ds))
          = map (\<lambda>(j, d). (next_id s + int j, new_track (next_id s + int j) (snd d)))
             (enumerate 1 (filter (\<lambda>d. fst d \<notin> set md) ds))"
      using enumerate_shift[of "next_id s" 0] by simp
    show ?thesis
      using Cons.IH[OF inv1] False st shift
      by (simp add: add_track_next add_track_table[OF Cons.prems] enumerate_Suc_eq)
  qed
qed

lemma fold_add_track: "fold add_track ds s = fold (spawn_step []) (enumerate 0 ds) s"
proof -
  have e: "spawn_step [] = add_track \<circ> snd" by (intro ext) (simp add: spawn_step_def)
  have "fold (add_track \<circ> snd) (enumerate 0 ds) s = fold add_track (map snd (enumerate 0 ds)) s"
    by (simp only: fold_map)
  also have "\<dots> = fold add_track ds s" by simp
  finally show ?thesis unfolding e by simp
qed

lemma spawn_fold_extends:
  assumes "tracker_inv s"
  shows "tracker_inv (fold (spawn_step md) ds s) \<and>
         max_frames_lost (fold (spawn_step md) ds s) = max_frames_lost s \<and>
         next_id s \<le> next_id (fold (spawn_step md) ds s) \<and>
         (\<forall>k \<in> track_ids (fold (spawn_step md) ds s). k \<in> track_ids s \<or> next_id s \<le> k)"
  using spawn_fold[OF assms, of md ds]
  by (auto simp: track_ids_def in_set_enumerate_eq)

lemma init_tracks_extends:
  "tracker_inv (snd (init_tracks s ds)) \<and>
   max_frames_lost (snd (init_tracks s ds)) = max_frames_lost s \<and>
   next_id s \<le> next_id (snd (init_tracks s ds)) \<and>
   (\<forall>k \<in> track_ids (snd (init_tracks s ds)). next_id s \<le> k)"
proof -
  have "tracker_inv (s\<lparr>tracked_faces := []\<rparr>)" by (simp add: tracker_inv_def)
  from spawn_fold_extends[OF this, of "[]" "enumerate 0 ds"]
  show ?thesis by (simp add: init_tracks_def Let_def fold_add_track track_ids_def)
qed

lemma track_step_id: "tracking_id (fst (track_step m a tid f)) = tracking_id f"
  by (cases a) (simp add: track_step_def Let_def)

lemma mark_tracks_entry:
  "(k, g) \<in> set (mark_tracks predict s) \<Longrightarrow>
     \<exists>f. (k, f) \<in> set (tracked_faces s) \<and> tracking_id g = tracking_id f"
  by (auto simp: mark_tracks_def track_step_id)

lemma tracker_update_extends:
  assumes "tracker_inv s"
  shows "tracker_inv (snd (tracker_update predict s)) \<and>
   max_frames_lost (snd (tracker_update predict s)) = max_frames_lost s \<and>
   next_id (snd (tracker_update predict s)) = next_id s \<and>
   track_ids (snd (tracker_update predict s)) \<subseteq> track_ids s"
proof -
  let ?t = "filter (\<lambda>(tid, tracked). tid \<notin> set (lost_ids predict s)) (mark_tracks predict s)"
  have s1: "snd (tracker_update predict s) = s\<lparr>tracked_faces := ?t\<rparr>"
    by (simp add: tracker_update_def Let_def)
  have ent: "\<exists>f. (k, f) \<in> set (tracked_faces s) \<and> tracking_id g = tracking_id f"
    if "(k, g) \<in> set ?t" for k g
    using that mark_tracks_entry[of k g predict s] by simp
  have "tracker_inv (s\<lparr>tracked_faces := ?t\<rparr>)"
    unfolding tracker_inv_def
  proof (clarsimp)
    fix k g assume "(k, g) \<in> set (mark_tracks predict s)"
    from mark_tracks_entry[OF this] obtain f where f: "(k, f) \<in> set (tracked_faces s)"
      "tracking_id g = tracking_id f" by blast
    then show "k < next_id s \<and> tracking_id g = k"
      using assms by (auto simp: tracker_inv_def)
  qed
  moreover have "track_ids (s\<lparr>tracked_faces := ?t\<rparr>) \<subseteq> track_ids s"
  proof
    fix k assume "k \<in> track_ids (s\<lparr>tracked_faces := ?t\<rparr>)"
    then obtain g where "(k, g) \<in> set ?t" by (auto simp: track_ids_def)
    from ent[OF this] obtain f where "(k, f) \<in> set (tracked_faces s)" by blast
    then show "k \<in> track_ids s" by (force simp: track_ids_def)
  qed
  ultimately show ?thesis unfolding s1 by simp
qed

lemma rematch_entry:
  "(k, g) \<in> set (rematch t d table) \<Longrightarrow>
     \<exists>f. (k, f) \<in> set table \<and> tracking_id g = tracking_id f"
  by (auto simp: rematch_def split: if_splits)

lemma match_fold_entry:
  "(k, g) \<in> set (fst (fold (match_step thr) dets acc)) \<Longrightarrow>
     \<exists>f. (k, f) \<in> set (fst acc) \<and> tracking_id g = tracking_id f"
proof (induction dets arbitrary: acc k g)
  case Nil
  then show ?case by auto
next
  case (Cons d dets)
  obtain table mt md where acc: "acc = (table, mt, md)" by (cases acc)
  from Cons.IH[of k g "match_step thr d acc"] Cons.prems
  obtain f where f: "(k, f) \<in> set (fst (match_step thr d acc))" "tracking_id g = tracking_id f"
    by auto
  show ?case
  proof (cases "find_best_track table mt (snd d) thr")
    case None
    then show ?thesis using f acc by (auto simp: match_step_def)
  next
    case (Some t)
    then have "(k, f) \<in> set (rematch t (snd d) table)" using f acc by (simp add: match_step_def)
    from rematch_entry[OF this] f acc show ?thesis by auto
  qed
qed

lemma refresh_tracks_extends:
  assumes "tracker_inv s"
  shows "tracker_inv (snd (refresh_tracks s ds thr)) \<and>
   max_frames_lost (snd (refresh_tracks s ds thr)) = max_frames_lost s \<and>
   next_id s \<le> next_id (snd (refresh_tracks s ds thr)) \<and>
   (\<forall>k \<in> track_ids (snd (refresh_tracks s ds thr)). k \<in> track_ids s \<or> next_id s \<le> k)"
proof (cases "ds = []")
  case True
  then show ?thesis using assms by (simp add: refresh_tracks_def)
next
  case False
  show ?thesis
  proof (cases "tracked_faces s = []")
    case True
    then show ?thesis using False init_tracks_extends[of s ds]
      by (auto simp: refresh_tracks_def)
  next
    case ne: False
    obtain table mt md where m: "match_detections thr (tracked_faces s) ds = (table, mt, md)"
      by (cases "match_detections thr (tracked_faces s) ds")
    have ent: "\<And>k g. (k, g) \<in> set table \<Longrightarrow>
        \<exists>f. (k, f) \<in> set (tracked_faces s) \<and> tracking_id g = tracking_id f"
      using match_fold_entry[of _ _ thr "enumerate 0 ds" "(tracked_faces s, [], [])"] m
      by (simp add: match_detections_def)
    have inv1: "tracker_inv (s\<lparr>tracked_faces := table\<rparr>)"
      unfolding tracker_inv_def
    proof (clarsimp)
      fix k g assume "(k, g) \<in> set table"
      from ent[OF this] obtain f where f: "(k, f) \<in> set (tracked_faces s)"
        "tracking_id g = tracking_id f" by blast
      then show "k < next_id s \<and> tracking_id g = k"
        using assms by (auto simp: tracker_inv_def)
    qed
    have sub: "track_ids (s\<lparr>tracked_faces := table\<rparr>) \<subseteq> track_ids s"
    proof
      fix k assume "k \<in> track_ids (s\<lparr>tracked_faces := table\<rparr>)"
      then obtain g where "(k, g) \<in> set table" by (auto simp: track_ids_def)
      from ent[OF this] obtain f where "(k, f) \<in> set (tracked_faces s)" by blast
      then show "k \<in> track_ids s" by (force simp: track_ids_def)
    qed
    have r: "snd (refresh_tracks s ds thr) =
             fold (spawn_step md) (enumerate 0 ds) (s\<lparr>tracked_faces := table\<rparr>)"
      using False ne m by (simp add: refresh_tracks_def Let_def)
    from spawn_fold_extends[OF inv1, of md "enumerate 0 ds"] sub
    show ?thesis unfolding r by auto
  qed
qed

lemma apply_op_extends:
  assumes "tracker_inv s"
  shows "tracker_inv (apply_op op s) \<and>
   max_frames_lost (apply_op op s) = max_frames_lost s \<and>
   next_id s \<le> next_id (apply_op op s) \<and>
   (\<forall>k \<in> track_ids (apply_op op s). k \<in> track_ids s \<or> next_id s \<le> k)"
proof (cases op)
  case (InitTracks ds)
  then show ?thesis using init_tracks_extends[of s ds] by auto
next
  case (Update predict)
  then show ?thesis using tracker_update_extends[OF assms, of predict] by auto
next
  case (RefreshTracks ds thr)
  then show ?thesis using refresh_tracks_extends[OF assms, of ds thr] by auto
next
  case Clear
  then show ?thesis using assms by (simp add: clear_def tracker_inv_def track_ids_def)
qed

lemma run_ops_extends:
  assumes "tracker_inv s"
  shows "tracker_inv (run_ops ops s) \<and>
   max_frames_lost (run_ops ops s) = max_frames_lost s \<and>
   next_id s \<le> next_id (run_ops ops s) \<and>
   (\<forall>k \<in> track_ids (run_ops ops s). k \<in> track_ids s \<or> next_id s \<le> k)"
  using assms
proof (induction ops arbitrary: s)
  case Nil
  then show ?case by (simp add: run_ops_def)
next
  case (Cons op ops)
  have r: "run_ops (op # ops) s = run_ops ops (apply_op op s)" by (simp add: run_ops_def)
  from apply_op_extends[OF Cons.prems, of op] Cons.IH[of "apply_op op s"]
  show ?case unfolding r
  proof (intro conjI ballI)
    fix k assume k: "k \<in> track_ids (run_ops ops (apply_op op s))"
    have a: "tracker_inv (apply_op op s)" "next_id s \<le> next_id (apply_op op s)"
      "\<forall>k \<in> track_ids (apply_op op s). k \<in> track_ids s \<or> next_id s \<le> k"
      using apply_op_extends[OF Cons.prems, of op] by blast+
    from Cons.IH[OF a(1)] k have "k \<in> track_ids (apply_op op s) \<or> next_id (apply_op op s) \<le> k"
      by blast
    then show "k \<in> track_ids s \<or> next_id s \<le> k" using a(2,3) by force
  qed (use apply_op_extends[OF Cons.prems, of op] Cons.IH[of "apply_op op s"] in force)+
qed

lemma new_tracker_inv: "tracker_inv (new_tracker m)"
  by (simp add: tracker_inv_def new_tracker_def)

lemma reported_ids:
  assumes "tracker_inv s"
  shows "tracking_id ` set (reported op s) \<subseteq> track_ids (apply_op op s)"
proof -
  have inv: "tracker_inv (apply_op op s)" using apply_op_extends[OF assms] by blast
  have fl: "tracking_id ` set (face_list s') \<subseteq> track_ids s'" if "tracker_inv s'" for s'
  proof
    fix t assume "t \<in> tracking_id ` set (face_list s')"
    then obtain k f where kf: "(k, f) \<in> set (tracked_faces s')" "t = tracking_id f"
      by (auto simp: face_list_def)
    then have "t = k" using that by (auto simp: tracker_inv_def)
    then show "t \<in> track_ids s'" using kf by (force simp: track_ids_def)
  qed
  show ?thesis
  proof (cases op)
    case (InitTracks ds)
    then show ?thesis using fl[OF inv] by (simp add: init_tracks_def Let_def)
  next
    case (Update p)
    then show ?thesis using fl[OF inv] by (simp add: tracker_update_def Let_def)
  next
    case (RefreshTracks ds thr)
    have "fst (refresh_tracks s ds thr) = face_list (snd (refresh_tracks s ds thr))"
      by (auto simp: refresh_tracks_def init_tracks_def Let_def split: prod.splits)
    then show ?thesis using fl[OF inv] RefreshTracks by simp
  next
    case Clear
    then show ?thesis by simp
  qed
qed















lemma track_step_exceeds:
  assumes "frames_since_detection f + 1 > m"
  shows "is_lost (fst (track_step m a tid f)) \<and>
         frames_since_detection (fst (track_step m a tid f)) = frames_since_detection f + 1 \<and>
         tid \<in> set (snd (track_step m a tid f))"
  using assms by (cases a) (simp add: track_step_def Let_def)

text \<open>
  Claim C6: in a tracker reached by any sequence of calls, a track whose
  \<^verbatim>\<open>frames_since_detection\<close>, incremented by \<^verbatim>\<open>update\<close>, exceeds the lost-timeout is
  marked lost by that call, is not among the faces the call returns and is not in the
  table after it. Its identity is below \<^verbatim>\<open>_next_id\<close>; after any later calls of
  \<^verbatim>\<open>init_tracks\<close>, \<^verbatim>\<open>update\<close>, \<^verbatim>\<open>refresh_tracks\<close> and \<^verbatim>\<open>clear\<close> the identity is in
  no table and in no list of returned faces, \<^verbatim>\<open>_next_id\<close> has not decreased, and every
  track of the table is either one from before or has an identity of at least the
  \<^verbatim>\<open>_next_id\<close> from before.
\<close>

theorem lost_track_removed_identity_never_reused:
  assumes reach: "s = run_ops history (new_tracker m)"
    and mem: "(tid, f) \<in> set (tracked_faces s)"
    and exceed: "frames_since_detection f + 1 > max_frames_lost s"
  shows "(\<exists>g. (tid, g) \<in> set (mark_tracks predict s) \<and> is_lost g \<and>
              frames_since_detection g = frames_since_detection f + 1) \<and>
         tid \<in> set (lost_ids predict s) \<and>
         tid \<notin> tracking_id ` set (fst (tracker_update predict s)) \<and>
         tid \<notin> track_ids (snd (tracker_update predict s)) \<and>
         tid < next_id s \<and>
         (\<forall>later.
            tid \<notin> track_ids (run_ops later (snd (tracker_update predict s))) \<and>
            (\<forall>op. tid \<notin> tracking_id ` set (reported op (run_ops later (snd (tracker_update predict s))))) \<and>
            next_id s \<le> next_id (run_ops later (snd (tracker_update predict s))) \<and>
            (\<forall>k \<in> track_ids (run_ops later (snd (tracker_update predict s))).
                k \<in> track_ids s \<or> next_id s \<le> k))"
proof -
  let ?s' = "snd (tracker_update predict s)"
  have inv: "tracker_inv s" unfolding reach using run_ops_extends[OF new_tracker_inv] by blast
  have upd: "tracker_inv ?s'" "next_id ?s' = next_id s" "track_ids ?s' \<subseteq> track_ids s"
    using tracker_update_extends[OF inv, of predict] by blast+
  let ?g = "fst (track_step (max_frames_lost s) (predict tid) tid f)"
  have ts: "is_lost ?g" "frames_since_detection ?g = frames_since_detection f + 1"
    "tid \<in> set (snd (track_step (max_frames_lost s) (predict tid) tid f))"
    using track_step_exceeds[OF exceed] by blast+
  have m1: "(tid, ?g) \<in> set (mark_tracks predict s)"
    using mem by (force simp: mark_tracks_def)
  have l1: "tid \<in> set (lost_ids predict s)"
    using mem ts(3) by (force simp: lost_ids_def)
  have gone: "tid \<notin> track_ids ?s'"
    using l1 by (auto simp: tracker_update_def Let_def track_ids_def)
  have rep: "tid \<notin> tracking_id ` set (fst (tracker_update predict s))"
    using reported_ids[OF inv, of "Update predict"] gone by auto
  have lt: "tid < next_id s" using inv mem by (auto simp: tracker_inv_def)
  have later: "tid \<notin> track_ids (run_ops later ?s') \<and>
            (\<forall>op. tid \<notin> tracking_id ` set (reported op (run_ops later ?s'))) \<and>
            next_id s \<le> next_id (run_ops later ?s') \<and>
            (\<forall>k \<in> track_ids (run_ops later ?s'). k \<in> track_ids s \<or> next_id s \<le> k)" for later
  proof -
    have ext: "tracker_inv (run_ops later ?s')" "next_id ?s' \<le> next_id (run_ops later ?s')"
      "\<forall>k \<in> track_ids (run_ops later ?s'). k \<in> track_ids ?s' \<or> next_id ?s' \<le> k"
      using run_ops_extends[OF upd(1), of later] by blast+
    have a: "tid \<notin> track_ids (run_ops later ?s')"
      using ext(3) gone lt upd(2) by force
    have b: "tid \<notin> tracking_id ` set (reported op (run_ops later ?s'))" for op
    proof -
      have e2: "\<forall>k \<in> track_ids (apply_op op (run_ops later ?s')).
                  k \<in> track_ids (run_ops later ?s') \<or> next_id (run_ops later ?s') \<le> k"
        using apply_op_extends[OF ext(1), of op] by blast
      have "tid \<notin> track_ids (apply_op op (run_ops later ?s'))"
        using e2 a lt ext(2) upd(2) by force
      then show ?thesis using reported_ids[OF ext(1), of op] by auto
    qed
    have c: "next_id s \<le> next_id (run_ops later ?s')" using ext(2) upd(2) by simp
    have d: "\<forall>k \<in> track_ids (run_ops later ?s'). k \<in> track_ids s \<or> next_id s \<le> k"
      using ext(3) upd(2,3) by auto
    show ?thesis using a b c d by blast
  qed
  show ?thesis using m1 ts(1,2) l1 rep gone lt later by blast
qed


lemma aged_tracker_table:
  "tracked_faces aged_tracker =
     [(0, \<lparr>tracking_id = 0, bbox = (0, 0, 10, 10), confidence = 0.98,
           frames_since_detection = 1, is_lost = False\<rparr>)]"
  "next_id aged_tracker = 1" "max_frames_lost aged_tracker = 1"
  by (simp_all add: aged_tracker_def run_ops_def init_tracks_def new_tracker_def add_track_def
        Let_def exact_box_def tracker_update_def mark_tracks_def lost_ids_def track_step_def
        still_def new_track_def py_int_def)

theorem lost_track_removed_identity_never_reused_witness:
  "aged_tracker = run_ops [InitTracks [exact_box], Update still] (new_tracker 1) \<and>
   (0, \<lparr>tracking_id = 0, bbox = (0, 0, 10, 10), confidence = 0.98,
           frames_since_detection = 1, is_lost = False\<rparr>) \<in> set (tracked_faces aged_tracker) \<and>
   max_frames_lost aged_tracker < 1 + 1 \<and>
   0 \<notin> track_ids (snd (tracker_update still aged_tracker)) \<and>
   0 \<notin> track_ids (run_ops [RefreshTracks [exact_box] 0.3, InitTracks [exact_box], Clear]
                     (snd (tracker_update still aged_tracker)))"
proof -
  let ?f = "\<lparr>tracking_id = 0, bbox = (0, 0, 10, 10), confidence = 0.98,
           frames_since_detection = 1, is_lost = False\<rparr>"
  have r: "aged_tracker = run_ops [InitTracks [exact_box], Update still] (new_tracker 1)"
    by (simp add: aged_tracker_def)
  have mem: "(0, ?f) \<in> set (tracked_faces aged_tracker)" by (simp add: aged_tracker_table)
  have ex: "frames_since_detection ?f + 1 > max_frames_lost aged_tracker"
    by (simp add: aged_tracker_table)
  from lost_track_removed_identity_never_reused[OF r mem ex, of still] r mem ex show ?thesis by simp
qed

subsection \<open>The association step\<close>










end
